theory Spec2Isabelle
  imports Main "HOL-Library.List_Lexorder" "HOL-Library.Char_ord" "HOL-Library.AList"
begin

section \<open>Data model\<close>

text \<open>
  The persisted documents are JSON. A field value is one of the JSON values that
  \<^verbatim>\<open>json.load\<close> produces: \<^verbatim>\<open>None\<close>, a bool, an int, a str, a list or a dict.
  JSON reals (Python floats) are left out of the model. A Python dict is an association
  list in insertion order; an item and a category record are such dicts, since the code
  never assumes that a field is there.
\<close>

datatype jval =
    JNull
  | JBool bool
  | JInt int
  | JStr string
  | JArr "jval list"
  | JObj "(string \<times> jval) list"

type_synonym obj = "(string \<times> jval) list"

datatype error = KeyError | TypeError | ValueError | OverflowError | OSError

text \<open>Python's \<^verbatim>\<open>==\<close> on these values: \<^verbatim>\<open>True == 1\<close>, lists compare elementwise,
  dicts compare key by key whatever their order.\<close>

fun py_eq :: "jval \<Rightarrow> jval \<Rightarrow> bool" where
  "py_eq (JBool a) (JInt n) = ((if a then 1 else 0) = n)"
| "py_eq (JInt n) (JBool a) = (n = (if a then 1 else 0))"
| "py_eq (JArr xs) (JArr ys) = list_all2 py_eq xs ys"
| "py_eq (JObj d) (JObj e) =
     (length d = length e \<and>
      list_all (\<lambda>(k, v). case map_of e k of None \<Rightarrow> False | Some w \<Rightarrow> py_eq v w) d)"
| "py_eq a b = (a = b)"

text \<open>Truthiness, as \<^verbatim>\<open>if x:\<close> tests it.\<close>

fun truthy :: "jval \<Rightarrow> bool" where
  "truthy JNull = False"
| "truthy (JBool b) = b"
| "truthy (JInt n) = (n \<noteq> 0)"
| "truthy (JStr s) = (s \<noteq> [])"
| "truthy (JArr xs) = (xs \<noteq> [])"
| "truthy (JObj d) = (d \<noteq> [])"

text \<open>\<^verbatim>\<open>d.get(k)\<close>, \<^verbatim>\<open>d[k]\<close> (which raises KeyError), \<^verbatim>\<open>k in d\<close> and
  \<^verbatim>\<open>d[k] = v\<close>.\<close>

definition dict_get :: "obj \<Rightarrow> string \<Rightarrow> jval" where
  "dict_get d k = (case map_of d k of None \<Rightarrow> JNull | Some v \<Rightarrow> v)"

definition dict_item :: "obj \<Rightarrow> string \<Rightarrow> error + jval" where
  "dict_item d k = (case map_of d k of None \<Rightarrow> Inl KeyError | Some v \<Rightarrow> Inr v)"

definition dict_has :: "obj \<Rightarrow> string \<Rightarrow> bool" where
  "dict_has d k = (map_of d k \<noteq> None)"

definition dict_set :: "obj \<Rightarrow> string \<Rightarrow> jval \<Rightarrow> obj" where
  "dict_set d k v = AList.update k v d"

subsection \<open>Storage\<close>

text \<open>
  Each collection is one file. \<^verbatim>\<open>DataManager.load\<close> returns the parsed document, and
  the empty default when the file is absent or cannot be read or parsed. The services
  are stated over the parsed documents: a document that parses is a list of dicts (a
  dict of dicts for the users), and a \<^verbatim>\<open>DataManager.save\<close> that succeeds replaces
  the document, which reads back as it was written. The failures of
  \<^verbatim>\<open>DataManager.save\<close> itself are modelled apart, on a file system, in the last section.
\<close>

datatype 'a stored = Absent | Corrupt | Content 'a

record storage =
  users :: "(string \<times> obj) list stored"
  fresh :: "obj list stored"
  expired :: "obj list stored"
  categories :: "obj list stored"

definition load :: "'a list stored \<Rightarrow> 'a list" where
  "load f = (case f of Content d \<Rightarrow> d | _ \<Rightarrow> [])"

section \<open>InventoryService.delete_item\<close>

text \<open>
  The list comprehension
  \<^verbatim>\<open>[i for i in fresh if not (i['id'] == item_id and i['owner'] == username)]\<close>:
  \<^verbatim>\<open>i['id']\<close> is read for every item, \<^verbatim>\<open>i['owner']\<close> only where the id is equal,
  and the first missing key raises.
\<close>

fun remaining :: "int \<Rightarrow> string \<Rightarrow> obj list \<Rightarrow> error + obj list" where
  "remaining item_id username [] = Inr []"
| "remaining item_id username (i # rest) =
     (case dict_item i ''id'' of
        Inl e \<Rightarrow> Inl e
      | Inr v \<Rightarrow>
          if py_eq v (JInt item_id) then
            (case dict_item i ''owner'' of
               Inl e \<Rightarrow> Inl e
             | Inr w \<Rightarrow>
                 (case remaining item_id username rest of
                    Inl e \<Rightarrow> Inl e
                  | Inr new_fresh \<Rightarrow>
                      Inr (if py_eq w (JStr username) then new_fresh else i # new_fresh)))
          else
            (case remaining item_id username rest of
               Inl e \<Rightarrow> Inl e
             | Inr new_fresh \<Rightarrow> Inr (i # new_fresh)))"

definition delete_item :: "int \<Rightarrow> string \<Rightarrow> storage \<Rightarrow> (error + bool) \<times> storage" where
  "delete_item item_id username st =
     (let fresh_items = load (fresh st) in
      case remaining item_id username fresh_items of
        Inl e \<Rightarrow> (Inl e, st)
      | Inr new_fresh \<Rightarrow>
          if length new_fresh \<noteq> length fresh_items
          then (Inr True, st\<lparr>fresh := Content new_fresh\<rparr>)
          else (Inr False, st))"

text \<open>The items the call is meant to remove, and the items of one owner.\<close>

definition item_matches :: "int \<Rightarrow> string \<Rightarrow> obj \<Rightarrow> bool" where
  "item_matches item_id username i =
     (case map_of i ''id'' of
        None \<Rightarrow> False
      | Some v \<Rightarrow> py_eq v (JInt item_id) \<and> map_of i ''owner'' = Some (JStr username))"

definition owned_by :: "string \<Rightarrow> obj \<Rightarrow> bool" where
  "owned_by username i = (dict_get i ''owner'' = JStr username)"

section \<open>InventoryService.get_inventory\<close>

text \<open>
  The two readings of the clock: \<^verbatim>\<open>today_str\<close> is the formatted date, and
  \<^verbatim>\<open>today_date\<close> the naive datetime, here the ordinal of its day (day 1 is
  0001-01-01) and the microseconds since midnight. Naive datetimes compare in that
  order. Adding a timedelta that leaves the year 9999 raises OverflowError.
\<close>

type_synonym datetime = "nat \<times> nat"

record clock =
  today_str :: string
  today_date :: datetime

definition dt_less :: "datetime \<Rightarrow> datetime \<Rightarrow> bool" where
  "dt_less a b = (fst a < fst b \<or> (fst a = fst b \<and> snd a < snd b))"

definition max_ordinal :: nat where
  "max_ordinal = 3652059"

definition add_days :: "datetime \<Rightarrow> nat \<Rightarrow> error + datetime" where
  "add_days d n = (if max_ordinal < fst d + n then Inl OverflowError else Inr (fst d + n, snd d))"

text \<open>The self-heal of both loops: \<^verbatim>\<open>if 'category' not in item\<close>.\<close>

definition heal :: "obj \<Rightarrow> bool \<Rightarrow> obj \<times> bool" where
  "heal item updates_needed =
     (if \<not> dict_has item ''category''
      then (dict_set item ''category'' (JStr ''General''), True)
      else (item, updates_needed))"

text \<open>
  Pipeline 1. The value of \<^verbatim>\<open>is_expired\<close>, or the exception of the comparison: a str
  and a value of another type do not compare.
\<close>

definition check_expiry :: "string \<Rightarrow> obj \<Rightarrow> error + bool" where
  "check_expiry today item =
     (if truthy (dict_get item ''expiry_date'') then
        (case dict_get item ''expiry_date'' of
           JStr s \<Rightarrow> Inr (s < today)
         | _ \<Rightarrow> Inl TypeError)
      else Inr False)"

definition fresh_step ::
  "string \<Rightarrow> obj \<Rightarrow> obj list \<times> obj list \<times> bool \<Rightarrow> obj list \<times> obj list \<times> bool" where
  "fresh_step today item0 acc =
     (case acc of (new_fresh, all_expired, updates_needed0) \<Rightarrow>
        (case heal item0 updates_needed0 of (item, updates_needed) \<Rightarrow>
           (case check_expiry today item of
              Inr True \<Rightarrow>
                (new_fresh, all_expired @ [dict_set item ''archived_at'' (JStr today)], True)
            | Inr False \<Rightarrow> (new_fresh @ [item], all_expired, updates_needed)
            | Inl e \<Rightarrow> (new_fresh @ [item], all_expired, updates_needed))))"

text \<open>
  Pipeline 2. \<^verbatim>\<open>strptime\<close> stands for \<^verbatim>\<open>datetime.strptime(., '%Y-%m-%d')\<close> on a str:
  the ordinal of the parsed date, or None for its ValueError. On a value that is no str
  the library raises TypeError. Only ValueError and TypeError are caught.
\<close>

definition purge_step ::
  "(string \<Rightarrow> nat option) \<Rightarrow> datetime \<Rightarrow> obj \<Rightarrow> obj list \<times> bool \<Rightarrow> error + obj list \<times> bool" where
  "purge_step strptime today item0 acc =
     (case acc of (final_expired, updates_needed0) \<Rightarrow>
        (case heal item0 updates_needed0 of (item, updates_needed) \<Rightarrow>
           (case dict_item item ''expiry_date'' of
              Inl e \<Rightarrow> Inl e
            | Inr (JStr s) \<Rightarrow>
                (case strptime s of
                   None \<Rightarrow> Inr (final_expired, True)
                 | Some d \<Rightarrow>
                     (case add_days (d, 0) 30 of
                        Inl e \<Rightarrow> Inl e
                      | Inr limit \<Rightarrow>
                          if dt_less today limit
                          then Inr (final_expired @ [item], updates_needed)
                          else Inr (final_expired, True)))
            | Inr _ \<Rightarrow> Inr (final_expired, True))))"

fun purge ::
  "(string \<Rightarrow> nat option) \<Rightarrow> datetime \<Rightarrow> obj list \<Rightarrow> obj list \<times> bool \<Rightarrow> error + obj list \<times> bool" where
  "purge strptime today [] acc = Inr acc"
| "purge strptime today (item # rest) acc =
     (case purge_step strptime today item acc of
        Inl e \<Rightarrow> Inl e
      | Inr acc' \<Rightarrow> purge strptime today rest acc')"

text \<open>Both pipelines: \<^verbatim>\<open>new_fresh\<close>, \<^verbatim>\<open>final_expired\<close> and \<^verbatim>\<open>updates_needed\<close>.\<close>

definition inventory_pass ::
  "(string \<Rightarrow> nat option) \<Rightarrow> clock \<Rightarrow> storage \<Rightarrow> error + obj list \<times> obj list \<times> bool" where
  "inventory_pass strptime clk st =
     (case fold (fresh_step (today_str clk)) (load (fresh st)) ([], load (expired st), False) of
        (new_fresh, all_expired, updates_needed) \<Rightarrow>
          (case purge strptime (today_date clk) all_expired ([], updates_needed) of
             Inl e \<Rightarrow> Inl e
           | Inr (final_expired, updates_needed') \<Rightarrow>
               Inr (new_fresh, final_expired, updates_needed')))"

record inventory =
  inv_fresh :: "obj list"
  inv_expired :: "obj list"

definition get_inventory ::
  "(string \<Rightarrow> nat option) \<Rightarrow> clock \<Rightarrow> string \<Rightarrow> storage \<Rightarrow> (error + inventory) \<times> storage" where
  "get_inventory strptime clk username st =
     (case inventory_pass strptime clk st of
        Inl e \<Rightarrow> (Inl e, st)
      | Inr (new_fresh, final_expired, updates_needed) \<Rightarrow>
          (Inr \<lparr>inv_fresh = filter (owned_by username) new_fresh,
                inv_expired = filter (owned_by username) final_expired\<rparr>,
           if updates_needed
           then st\<lparr>fresh := Content new_fresh, expired := Content final_expired\<rparr>
           else st))"

subsection \<open>The library's parser on the format \<^verbatim>\<open>%Y-%m-%d\<close>\<close>

text \<open>
  Four digits, a month \<^verbatim>\<open>1[0-2]|0[1-9]|[1-9]\<close>, a day
  \<^verbatim>\<open>3[01]|[12]\d|0[1-9]|[1-9]| [1-9]\<close>, nothing after it, and a date that exists in
  the proleptic Gregorian calendar from the year 1 on. The digits are the ASCII ones.
\<close>

definition is_digit :: "char \<Rightarrow> bool" where
  "is_digit c = (48 \<le> (of_char c :: nat) \<and> (of_char c :: nat) \<le> 57)"

definition digit_val :: "char \<Rightarrow> nat" where
  "digit_val c = of_char c - 48"

definition month_token :: "string \<Rightarrow> nat option" where
  "month_token s =
     (case s of
        [a] \<Rightarrow> if is_digit a \<and> a \<noteq> CHR ''0'' then Some (digit_val a) else None
      | [a, b] \<Rightarrow>
          if a = CHR ''1'' \<and> b \<in> set ''012'' then Some (10 + digit_val b)
          else if a = CHR ''0'' \<and> is_digit b \<and> b \<noteq> CHR ''0'' then Some (digit_val b)
          else None
      | _ \<Rightarrow> None)"

definition day_token :: "string \<Rightarrow> nat option" where
  "day_token s =
     (case s of
        [a] \<Rightarrow> if is_digit a \<and> a \<noteq> CHR ''0'' then Some (digit_val a) else None
      | [a, b] \<Rightarrow>
          if a = CHR ''3'' \<and> b \<in> set ''01'' then Some (30 + digit_val b)
          else if a \<in> set ''12'' \<and> is_digit b then Some (10 * digit_val a + digit_val b)
          else if a \<in> set ''0 '' \<and> is_digit b \<and> b \<noteq> CHR ''0'' then Some (digit_val b)
          else None
      | _ \<Rightarrow> None)"

definition is_leap :: "nat \<Rightarrow> bool" where
  "is_leap y = (y mod 4 = 0 \<and> (y mod 100 \<noteq> 0 \<or> y mod 400 = 0))"

definition days_in_month :: "nat \<Rightarrow> nat \<Rightarrow> nat" where
  "days_in_month y m =
     (if m = 2 then (if is_leap y then 29 else 28)
      else if m \<in> {4, 6, 9, 11} then 30 else 31)"

definition days_before_year :: "nat \<Rightarrow> nat" where
  "days_before_year y =
     (y - 1) * 365 + (y - 1) div 4 - (y - 1) div 100 + (y - 1) div 400"

definition days_before_month :: "nat \<Rightarrow> nat \<Rightarrow> nat" where
  "days_before_month y m = sum_list (map (days_in_month y) [1..<m])"

definition to_ordinal :: "nat \<Rightarrow> nat \<Rightarrow> nat \<Rightarrow> nat" where
  "to_ordinal y m d = days_before_year y + days_before_month y m + d"

definition strptime_ymd :: "string \<Rightarrow> nat option" where
  "strptime_ymd s =
     (case s of
        y1 # y2 # y3 # y4 # sep # rest \<Rightarrow>
          if list_all is_digit [y1, y2, y3, y4] \<and> sep = CHR ''-'' then
            (case dropWhile (\<lambda>c. c \<noteq> CHR ''-'') rest of
               [] \<Rightarrow> None
             | _ # day_part \<Rightarrow>
                 (case (month_token (takeWhile (\<lambda>c. c \<noteq> CHR ''-'') rest), day_token day_part) of
                    (Some m, Some d) \<Rightarrow>
                      (let y = foldl (\<lambda>n c. 10 * n + digit_val c) 0 [y1, y2, y3, y4] in
                       if 1 \<le> y \<and> d \<le> days_in_month y m then Some (to_ordinal y m d) else None)
                  | _ \<Rightarrow> None))
          else None
      | _ \<Rightarrow> None)"

section \<open>InventoryService.add_item\<close>

text \<open>
  \<^verbatim>\<open>now_us\<close> is the value of \<^verbatim>\<open>int(datetime.now().timestamp() * 1_000_000)\<close> at the call
  and \<^verbatim>\<open>today\<close> the formatted date of its second clock reading; the clock is an input.
\<close>

definition add_item ::
  "int \<Rightarrow> string \<Rightarrow> obj \<Rightarrow> string \<Rightarrow> storage \<Rightarrow> (error + obj) \<times> storage" where
  "add_item now_us today data username st =
     (let item_id = now_us in
      case dict_item data ''name'' of
        Inl e \<Rightarrow> (Inl e, st)
      | Inr name \<Rightarrow>
          (case dict_item data ''expiry_date'' of
             Inl e \<Rightarrow> (Inl e, st)
           | Inr expiry_date \<Rightarrow>
               (let item =
                  [(''id'', JInt item_id),
                   (''name'', name),
                   (''expiry_date'', expiry_date),
                   (''category'',
                      case map_of data ''category'' of None \<Rightarrow> JStr ''General'' | Some c \<Rightarrow> c),
                   (''owner'', JStr username),
                   (''added_at'', JStr today)]
                in (Inr item, st\<lparr>fresh := Content (load (fresh st) @ [item])\<rparr>))))"

text \<open>A run of calls, each with its clock readings, its fields and its user; the first
  exception ends the run.\<close>

fun add_items ::
  "(int \<times> string \<times> obj \<times> string) list \<Rightarrow> storage \<Rightarrow> (error + obj list) \<times> storage" where
  "add_items [] st = (Inr [], st)"
| "add_items ((now_us, today, data, username) # calls) st =
     (case add_item now_us today data username st of
        (Inl e, st') \<Rightarrow> (Inl e, st')
      | (Inr item, st') \<Rightarrow>
          (case add_items calls st' of
             (Inl e, st'') \<Rightarrow> (Inl e, st'')
           | (Inr items, st'') \<Rightarrow> (Inr (item # items), st'')))"

section \<open>CategoryService\<close>

definition DEFAULT_CATEGORIES :: "obj list" where
  "DEFAULT_CATEGORIES =
     [[(''name'', JStr ''General''), (''type'', JStr ''system'')],
      [(''name'', JStr ''Food''), (''type'', JStr ''system'')],
      [(''name'', JStr ''Medicine''), (''type'', JStr ''system'')],
      [(''name'', JStr ''Documents''), (''type'', JStr ''system'')],
      [(''name'', JStr ''Personal Care''), (''type'', JStr ''system'')]]"

text \<open>
  \<^verbatim>\<open>cat_map\<close> is a dict keyed by the names, kept in insertion order. A list or a dict is
  no key (TypeError); two keys are the same key when they are equal.
\<close>

fun hashable :: "jval \<Rightarrow> bool" where
  "hashable (JArr xs) = False"
| "hashable (JObj d) = False"
| "hashable v = True"

definition in_cat_map :: "jval \<Rightarrow> (jval \<times> obj) list \<Rightarrow> bool" where
  "in_cat_map k cat_map = list_ex (\<lambda>(k', c). py_eq k' k) cat_map"

fun merge_cats :: "string \<Rightarrow> obj list \<Rightarrow> (jval \<times> obj) list \<Rightarrow> error + (jval \<times> obj) list" where
  "merge_cats username [] cat_map = Inr cat_map"
| "merge_cats username (c # rest) cat_map =
     (if dict_get c ''owner'' = JStr username then
        (case dict_item c ''name'' of
           Inl e \<Rightarrow> Inl e
         | Inr nm \<Rightarrow>
             if \<not> hashable nm then Inl TypeError
             else if \<not> in_cat_map nm cat_map
             then merge_cats username rest (cat_map @ [(nm, c)])
             else merge_cats username rest cat_map)
      else merge_cats username rest cat_map)"

text \<open>
  \<^verbatim>\<open>sorted(list(cat_map.values()), key=lambda x: x['name'])\<close>: every value is stored
  under its own name. The map holds the five system names, which are strs, so a name of
  another type meets a str in some comparison of the sort, which raises TypeError.
  The sort is stable, and strs compare by code points.
\<close>

fun str_of :: "jval \<Rightarrow> string" where
  "str_of (JStr s) = s"
| "str_of v = []"

fun is_str :: "jval \<Rightarrow> bool" where
  "is_str (JStr s) = True"
| "is_str v = False"

definition sorted_values :: "(jval \<times> obj) list \<Rightarrow> error + obj list" where
  "sorted_values cat_map =
     (if list_all (\<lambda>(k, c). is_str k) cat_map
      then Inr (map snd (sort_key (\<lambda>(k, c). str_of k) cat_map))
      else Inl TypeError)"

definition get_categories :: "string \<Rightarrow> storage \<Rightarrow> error + obj list" where
  "get_categories username st =
     (let all_cats = load (categories st);
          cat_map = map (\<lambda>c. (dict_get c ''name'', c)) DEFAULT_CATEGORIES
      in case merge_cats username all_cats cat_map of
           Inl e \<Rightarrow> Inl e
         | Inr cat_map' \<Rightarrow> sorted_values cat_map')"







text \<open>\<^verbatim>\<open>str.lower\<close> on the ASCII letters, for the case-insensitive reading of a name.\<close>

definition lower_char :: "char \<Rightarrow> char" where
  "lower_char c =
     (case map_of (zip ''ABCDEFGHIJKLMNOPQRSTUVWXYZ'' ''abcdefghijklmnopqrstuvwxyz'') c of
        None \<Rightarrow> c
      | Some l \<Rightarrow> l)"

definition lower :: "string \<Rightarrow> string" where
  "lower s = map lower_char s"

section \<open>DataManager.save\<close>

text \<open>
  The file system maps a path to the text of its file. \<^verbatim>\<open>save\<close> creates the temporary
  file, dumps the document into it, binds \<^verbatim>\<open>temp_name\<close>, flushes, syncs, closes and
  moves. The fault says which step raises; \<^verbatim>\<open>tmp\<close> is the name the library picks,
  \<^verbatim>\<open>text\<close> what \<^verbatim>\<open>json.dump\<close> writes, and \<^verbatim>\<open>written\<close> the part of it that reached the
  file when a step fails. The handler removes the temporary file only if \<^verbatim>\<open>temp_name\<close>
  is bound and the file exists, and raises again.
\<close>

datatype fault = NoFault | CreateFails | DumpFails | FlushFails | FsyncFails | CloseFails | MoveFails

type_synonym fs = "string \<Rightarrow> string option"

definition cleanup :: "string option \<Rightarrow> fs \<Rightarrow> fs" where
  "cleanup temp_name files =
     (case temp_name of
        None \<Rightarrow> files
      | Some t \<Rightarrow> if files t \<noteq> None then files(t := None) else files)"

definition save ::
  "fault \<Rightarrow> string \<Rightarrow> string \<Rightarrow> string \<Rightarrow> string \<Rightarrow> fs \<Rightarrow> (error + unit) \<times> fs" where
  "save fault tmp written filepath text files =
     (if fault = CreateFails then (Inl OSError, cleanup None files)
      else if fault = DumpFails then (Inl OSError, cleanup None (files(tmp \<mapsto> written)))
      else if fault \<in> {FlushFails, FsyncFails, CloseFails}
      then (Inl OSError, cleanup (Some tmp) (files(tmp \<mapsto> written)))
      else if fault = MoveFails then (Inl OSError, cleanup (Some tmp) (files(tmp \<mapsto> text)))
      else (Inr (), (files(tmp := None))(filepath \<mapsto> text)))"

section \<open>Example data\<close>

definition item_a :: obj where
  "item_a = [(''id'', JInt 1), (''name'', JStr ''Milk''), (''expiry_date'', JStr ''2030-01-01''),
     (''category'', JStr ''General''), (''owner'', JStr ''UserA''), (''added_at'', JStr ''2026-11-04'')]"

definition item_b :: obj where
  "item_b = [(''id'', JInt 1), (''name'', JStr ''Bread''), (''expiry_date'', JStr ''2030-01-01''),
     (''category'', JStr ''General''), (''owner'', JStr ''UserB''), (''added_at'', JStr ''2026-11-04'')]"

definition item_c :: obj where
  "item_c = [(''id'', JInt 2), (''name'', JStr ''Eggs''), (''expiry_date'', JStr ''2030-01-01''),
     (''category'', JStr ''General''), (''owner'', JStr ''UserB''), (''added_at'', JStr ''2026-11-04'')]"

definition st_distinct_ids :: storage where
  "st_distinct_ids =
     \<lparr>users = Content [], fresh = Content [item_a, item_c], expired = Content [],
      categories = Content []\<rparr>"

definition st_shared_id :: storage where
  "st_shared_id =
     \<lparr>users = Content [], fresh = Content [item_a, item_b], expired = Content [],
      categories = Content []\<rparr>"

subsection \<open>Clock readings, calls and files of the examples\<close>

definition item_ids :: "obj list \<Rightarrow> jval list" where
  "item_ids items = map (\<lambda>i. dict_get i ''id'') items"

definition st_empty :: storage where
  "st_empty = \<lparr>users = Content [], fresh = Content [], expired = Content [], categories = Content []\<rparr>"

definition milk_fields :: obj where
  "milk_fields = [(''name'', JStr ''Milk''), (''expiry_date'', JStr ''2030-01-01'')]"

definition bread_fields :: obj where
  "bread_fields = [(''name'', JStr ''Bread''), (''expiry_date'', JStr ''2030-02-01''), (''category'', JStr ''Food'')]"

definition calls_same_reading :: "(int \<times> string \<times> obj \<times> string) list" where
  "calls_same_reading =
     [(1793750400000000, ''2026-11-04'', milk_fields, ''UserA''),
      (1793750400000000, ''2026-11-04'', bread_fields, ''UserA'')]"

definition clock_nov4 :: clock where
  "clock_nov4 = \<lparr>today_str = ''2026-11-04'', today_date = (739924, 36000000000)\<rparr>"

definition item_no_date :: obj where
  "item_no_date = [(''id'', JInt 7), (''name'', JStr ''Old Cheese''), (''category'', JStr ''General''),
     (''owner'', JStr ''UserA''), (''archived_at'', JStr ''2026-10-01'')]"

definition st_no_date :: storage where
  "st_no_date = \<lparr>users = Content [], fresh = Content [], expired = Content [item_no_date],
     categories = Content []\<rparr>"

definition fs0 :: fs where
  "fs0 = [''data/fresh_inventory.json'' \<mapsto> ''[]'']"

subsection \<open>What the two pipelines decide for one item\<close>

text \<open>
  An item is past due when its \<^verbatim>\<open>expiry_date\<close> is a non-empty str below today's date string.
  An expired item is kept when its \<^verbatim>\<open>expiry_date\<close> is a str that parses to a day \<open>d\<close> with
  today before \<open>d + 30\<close>; it raises when the key is missing or \<open>d + 30\<close> leaves the calendar.
\<close>

definition past_due :: "string \<Rightarrow> obj \<Rightarrow> bool" where
  "past_due today item =
     (case dict_get item ''expiry_date'' of JStr s \<Rightarrow> s \<noteq> [] \<and> s < today | _ \<Rightarrow> False)"

definition healed :: "obj \<Rightarrow> obj" where
  "healed item = fst (heal item False)"

definition stamped :: "string \<Rightarrow> obj \<Rightarrow> obj" where
  "stamped today item = dict_set (healed item) ''archived_at'' (JStr today)"

definition kept :: "(string \<Rightarrow> nat option) \<Rightarrow> nat \<Rightarrow> obj \<Rightarrow> bool" where
  "kept strptime day item =
     (case map_of item ''expiry_date'' of
        Some (JStr s) \<Rightarrow>
          (case strptime s of Some d \<Rightarrow> d + 30 \<le> max_ordinal \<and> day < d + 30 | None \<Rightarrow> False)
      | _ \<Rightarrow> False)"

definition raises :: "(string \<Rightarrow> nat option) \<Rightarrow> obj \<Rightarrow> error option" where
  "raises strptime item =
     (case map_of item ''expiry_date'' of
        None \<Rightarrow> Some KeyError
      | Some (JStr s) \<Rightarrow>
          (case strptime s of
             Some d \<Rightarrow> if max_ordinal < d + 30 then Some OverflowError else None
           | None \<Rightarrow> None)
      | Some _ \<Rightarrow> None)"

definition clock_nov4_late :: clock where
  "clock_nov4_late = \<lparr>today_str = ''2026-11-04'', today_date = (739924, 82800000000)\<rparr>"

definition item_yesterday :: obj where
  "item_yesterday = [(''id'', JInt 100), (''name'', JStr ''Old Cheese''),
     (''expiry_date'', JStr ''2026-11-03''), (''owner'', JStr ''UserA''),
     (''added_at'', JStr ''2020-01-01'')]"

definition item_ancient :: obj where
  "item_ancient = [(''id'', JInt 999), (''name'', JStr ''Ancient Artifact''),
     (''expiry_date'', JStr ''2026-09-25''), (''owner'', JStr ''UserA''),
     (''archived_at'', JStr ''2026-09-25'')]"

definition st_sweep :: storage where
  "st_sweep = \<lparr>users = Content [], fresh = Content [item_yesterday, item_a],
     expired = Content [item_ancient], categories = Content []\<rparr>"

definition item_empty_date :: obj where
  "item_empty_date = [(''id'', JInt 5), (''name'', JStr ''Salt''), (''expiry_date'', JStr []),
     (''category'', JStr ''Food''), (''owner'', JStr ''UserA'')]"

definition item_int_date :: obj where
  "item_int_date = [(''id'', JInt 6), (''name'', JStr ''Rice''), (''expiry_date'', JInt 20261103),
     (''category'', JStr ''Food''), (''owner'', JStr ''UserA'')]"

subsection \<open>Categories and items of the examples\<close>






definition st_empty_date :: storage where
  "st_empty_date = \<lparr>users = Content [], fresh = Content [item_empty_date], expired = Content [],
     categories = Content []\<rparr>"

subsection \<open>The system names and the seed of the category map\<close>

definition system_names :: "jval list" where
  "system_names = map (\<lambda>c. dict_get c ''name'') DEFAULT_CATEGORIES"

definition seed_map :: "(jval \<times> obj) list" where
  "seed_map = map (\<lambda>c. (dict_get c ''name'', c)) DEFAULT_CATEGORIES"

definition cat_food_lower :: obj where
  "cat_food_lower = [(''id'', JInt 1793750400000011), (''name'', JStr ''food''),
     (''type'', JStr ''custom''), (''owner'', JStr ''UserA'')]"

definition st_food :: storage where
  "st_food = \<lparr>users = Content [], fresh = Content [], expired = Content [],
     categories = Content [cat_food_lower]\<rparr>"

section \<open>Properties of delete_item\<close>

lemma py_eq_JStr [simp]: "py_eq w (JStr u) = (w = JStr u)"
  by (cases w) auto

lemma remaining_Cons:
  "remaining n u (i # rest) = Inr ys \<Longrightarrow>
   \<exists>zs. remaining n u rest = Inr zs \<and> ys = (if item_matches n u i then zs else i # zs)"
  by (auto simp: dict_item_def item_matches_def split: option.splits sum.splits if_splits)

lemma remaining_filter:
  "remaining n u xs = Inr ys \<Longrightarrow> ys = filter (\<lambda>i. \<not> item_matches n u i) xs"
proof (induction xs arbitrary: ys)
  case Nil
  then show ?case by simp
next
  case (Cons i rest)
  from remaining_Cons [OF Cons.prems] obtain zs
    where zs: "remaining n u rest = Inr zs"
      and ys: "ys = (if item_matches n u i then zs else i # zs)" by blast
  from Cons.IH [OF zs] ys show ?case by simp
qed

lemma owned_not_matches: "owned_by A i \<Longrightarrow> A \<noteq> B \<Longrightarrow> \<not> item_matches n B i"
  by (auto simp: owned_by_def item_matches_def dict_get_def split: option.splits)

lemma length_filter_eq_iff: "(length (filter P xs) = length xs) = (\<forall>x\<in>set xs. P x)"
  by (metis filter_id_conv length_filter_less nat_neq_iff filter_True)

text \<open>
  C4, as amended. Whenever \<^verbatim>\<open>delete_item(n, B)\<close> returns, it has removed exactly the
  items whose id equals \<open>n\<close> and whose owner is \<open>B\<close>; it returns True exactly when
  there was such an item, which is exactly when the length changed; it saves the fresh
  collection only then; and for every other user \<open>A\<close> the items of \<open>A\<close> are all still
  there, unchanged and in their order. So it returns False and saves nothing when no item
  of the collection has both the id \<open>n\<close> and the owner \<open>B\<close>.
\<close>

theorem delete_item_spec:
  assumes "delete_item n B st = (Inr r, st')"
  shows "load (fresh st') = filter (\<lambda>i. \<not> item_matches n B i) (load (fresh st))
       \<and> (r \<longleftrightarrow> (\<exists>i\<in>set (load (fresh st)). item_matches n B i))
       \<and> (r \<longleftrightarrow> length (load (fresh st')) \<noteq> length (load (fresh st)))
       \<and> st' = (if r then st\<lparr>fresh := Content (filter (\<lambda>i. \<not> item_matches n B i) (load (fresh st)))\<rparr> else st)
       \<and> (A \<noteq> B \<longrightarrow> filter (owned_by A) (load (fresh st')) = filter (owned_by A) (load (fresh st)))"
proof -
  let ?xs = "load (fresh st)"
  let ?ys = "filter (\<lambda>i. \<not> item_matches n B i) ?xs"
  from assms obtain nf where nf: "remaining n B ?xs = Inr nf"
    by (auto simp: delete_item_def Let_def split: sum.splits)
  then have nf_eq: "nf = ?ys" by (rule remaining_filter)
  have r_eq: "r = (length ?ys \<noteq> length ?xs)"
    and st'_eq: "st' = (if r then st\<lparr>fresh := Content ?ys\<rparr> else st)"
    using assms nf nf_eq by (auto simp: delete_item_def Let_def split: if_splits)
  have same: "\<not> r \<Longrightarrow> ?ys = ?xs"
    using r_eq by (simp add: length_filter_eq_iff)
  have l: "load (fresh st') = ?ys"
    using st'_eq same by (cases r) (simp_all add: load_def)
  have own: "A \<noteq> B \<Longrightarrow> filter (owned_by A) ?ys = filter (owned_by A) ?xs"
    by (auto intro!: filter_cong dest: owned_not_matches)
  show ?thesis using l r_eq st'_eq own by (auto simp: length_filter_eq_iff)
qed

lemma delete_item_distinct_ids:
  "delete_item 1 ''UserB'' st_distinct_ids = (Inr False, st_distinct_ids)"
  by (simp add: delete_item_def st_distinct_ids_def item_a_def item_c_def load_def dict_item_def)

theorem delete_item_spec_witness:
  "delete_item 1 ''UserB'' st_distinct_ids = (Inr False, st_distinct_ids)
   \<and> ''UserA'' \<noteq> ''UserB''
   \<and> \<not> (\<exists>i\<in>set (load (fresh st_distinct_ids)). item_matches 1 ''UserB'' i)
   \<and> filter (owned_by ''UserA'') (load (fresh st_distinct_ids)) = [item_a]"
proof -
  note w = delete_item_spec [OF delete_item_distinct_ids, of "''UserA''"]
  have 1: "\<not> (\<exists>i\<in>set (load (fresh st_distinct_ids)). item_matches 1 ''UserB'' i)"
    using w by blast
  have 2: "filter (owned_by ''UserA'') (load (fresh st_distinct_ids)) = [item_a]"
    by (simp add: st_distinct_ids_def load_def owned_by_def dict_get_def item_a_def item_c_def)
  show ?thesis using delete_item_distinct_ids 1 2 by simp
qed

text \<open>
  C4 as it is stated fails where an item of \<open>B\<close> carries the same id as the item of
  \<open>A\<close>: the call returns True and saves, though the item of \<open>A\<close> stays.
\<close>

theorem delete_item_shared_id_counterexample:
  "''UserA'' \<noteq> ''UserB''
   \<and> item_a \<in> set (load (fresh st_shared_id))
   \<and> owned_by ''UserA'' item_a
   \<and> dict_get item_a ''id'' = JInt 1
   \<and> delete_item 1 ''UserB'' st_shared_id = (Inr True, st_shared_id\<lparr>fresh := Content [item_a]\<rparr>)"
  by (simp add: delete_item_def st_shared_id_def item_a_def item_b_def load_def dict_item_def
      owned_by_def dict_get_def)

text \<open>
  C9. Whatever the arguments and the outcome, \<^verbatim>\<open>delete_item\<close> leaves the expired,
  categories and users documents as they were: it loads and saves the fresh collection only.
\<close>

theorem delete_item_frame:
  "expired (snd (delete_item n u st)) = expired st
   \<and> categories (snd (delete_item n u st)) = categories st
   \<and> users (snd (delete_item n u st)) = users st"
  by (simp add: delete_item_def Let_def split: sum.splits)

section \<open>Properties of get_inventory, add_item and save\<close>

text \<open>
  C1. An expired record with no \<^verbatim>\<open>expiry_date\<close> key is not dropped: \<^verbatim>\<open>item['expiry_date']\<close>
  raises KeyError, which the handler for ValueError and TypeError does not catch, so
  \<^verbatim>\<open>get_inventory\<close> raises to its caller and saves nothing.
\<close>

theorem get_inventory_missing_date_raises:
  "get_inventory strptime_ymd clock_nov4 ''UserA'' st_no_date = (Inl KeyError, st_no_date)"
  by (simp add: get_inventory_def inventory_pass_def st_no_date_def item_no_date_def load_def
      purge_step_def heal_def dict_has_def dict_item_def)

text \<open>
  C7. When \<^verbatim>\<open>json.dump\<close> fails, \<^verbatim>\<open>temp_name\<close> is not bound yet, so the handler does not
  remove the temporary file: it stays, with what was written of it.
\<close>

theorem save_dump_failure_leaves_temp:
  "fst (save DumpFails ''data/tmpk3x'' ''[{'' ''data/fresh_inventory.json'' ''[{}]'' fs0) = Inl OSError
   \<and> snd (save DumpFails ''data/tmpk3x'' ''[{'' ''data/fresh_inventory.json'' ''[{}]'' fs0) ''data/tmpk3x''
       = Some ''[{''
   \<and> fs0 ''data/tmpk3x'' = None"
  by (simp add: save_def cleanup_def fs0_def)

text \<open>What does hold of a failing save: the target is untouched whatever step fails, and
  a failure after \<^verbatim>\<open>temp_name\<close> is bound removes the temporary file.\<close>

lemma save_failure_target_untouched:
  "fault \<noteq> NoFault \<Longrightarrow> tmp \<noteq> filepath \<Longrightarrow>
   fst (save fault tmp written filepath text files) = Inl OSError
   \<and> snd (save fault tmp written filepath text files) filepath = files filepath"
  by (cases fault) (simp_all add: save_def cleanup_def)

lemma save_late_failure_removes_temp:
  "fault \<in> {FlushFails, FsyncFails, CloseFails, MoveFails} \<Longrightarrow>
   snd (save fault tmp written filepath text files) tmp = None"
  by (cases fault) (simp_all add: save_def cleanup_def)

lemma add_item_Inr:
  "add_item t today data u st = (Inr item, st') \<Longrightarrow>
   dict_get item ''id'' = JInt t \<and> load (fresh st') = load (fresh st) @ [item]"
  by (auto simp: add_item_def Let_def dict_get_def load_def split: sum.splits)

lemma add_items_Inr:
  "add_items calls st = (Inr items, st') \<Longrightarrow>
   item_ids items = map (\<lambda>c. JInt (fst c)) calls \<and> load (fresh st') = load (fresh st) @ items"
proof (induction calls arbitrary: st items st')
  case Nil
  then show ?case by (simp add: item_ids_def)
next
  case (Cons c calls)
  obtain t today data u where c: "c = (t, today, data, u)" by (cases c) auto
  from Cons.prems c obtain item st1 items1
    where 1: "add_item t today data u st = (Inr item, st1)"
      and 2: "add_items calls st1 = (Inr items1, st')"
      and 3: "items = item # items1"
    by (auto split: prod.splits sum.splits)
  from add_item_Inr [OF 1] Cons.IH [OF 2] 3 c show ?case
    by (simp add: item_ids_def)
qed

text \<open>
  C8. Two \<^verbatim>\<open>add_item\<close> calls whose clock readings give the same microsecond count store
  two items with the same id: nothing but the reading goes into the id, which is neither
  checked against the stored ids nor generated under the lock.
\<close>

theorem add_item_same_reading_counterexample:
  "item_ids (load (fresh (snd (add_items calls_same_reading st_empty))))
     = [JInt 1793750400000000, JInt 1793750400000000]
   \<and> \<not> distinct (item_ids (load (fresh (snd (add_items calls_same_reading st_empty)))))"
  by (simp add: calls_same_reading_def st_empty_def add_item_def milk_fields_def bread_fields_def
      dict_item_def load_def item_ids_def dict_get_def Let_def)

section \<open>Properties of the inventory pipelines\<close>

lemma map_of_dict_set: "map_of (dict_set d k v) = (map_of d)(k \<mapsto> v)"
  by (simp add: dict_set_def update_conv')

lemma dict_get_dict_set:
  "dict_get (dict_set d k v) k' = (if k' = k then v else dict_get d k')"
  by (simp add: dict_get_def map_of_dict_set)

lemma dict_has_dict_set: "dict_has (dict_set d k v) k' = (k' = k \<or> dict_has d k')"
  by (simp add: dict_has_def map_of_dict_set)

lemma heal_eq: "heal item upd = (healed item, upd \<or> \<not> dict_has item ''category'')"
  by (simp add: heal_def healed_def)

lemma healed_has_category: "dict_has (healed item) ''category''"
  by (simp add: healed_def heal_def dict_has_dict_set)

lemma healed_id: "dict_has item ''category'' \<Longrightarrow> healed item = item"
  by (simp add: healed_def heal_def)

lemma map_of_healed_expiry: "map_of (healed item) ''expiry_date'' = map_of item ''expiry_date''"
  by (simp add: healed_def heal_def map_of_dict_set)

lemma dict_get_healed_expiry: "dict_get (healed item) ''expiry_date'' = dict_get item ''expiry_date''"
  by (simp add: dict_get_def map_of_healed_expiry)

lemma past_due_healed: "past_due today (healed item) = past_due today item"
  by (simp add: past_due_def dict_get_healed_expiry)

lemma kept_healed: "kept sp day (healed item) = kept sp day item"
  by (simp add: kept_def map_of_healed_expiry)

lemma raises_healed: "raises sp (healed item) = raises sp item"
  by (simp add: raises_def map_of_healed_expiry)

lemma check_expiry_past_due: "(check_expiry today item = Inr True) = past_due today item"
  by (cases "dict_get item ''expiry_date''") (auto simp: check_expiry_def past_due_def)

lemma fresh_step_eq:
  "fresh_step today item (nf, ae, upd) =
     (if past_due today item then (nf, ae @ [stamped today item], True)
      else (nf @ [healed item], ae, upd \<or> \<not> dict_has item ''category''))"
proof -
  have pd: "(check_expiry today (healed item) = Inr True) = past_due today item"
    by (simp add: check_expiry_past_due past_due_healed)
  show ?thesis
  proof (cases "past_due today item")
    case True
    with pd have "check_expiry today (healed item) = Inr True" by simp
    with True show ?thesis by (simp add: fresh_step_def heal_eq stamped_def)
  next
    case False
    with pd have "check_expiry today (healed item) \<noteq> Inr True" by simp
    with False show ?thesis
      by (cases "check_expiry today (healed item)") (auto simp: fresh_step_def heal_eq)
  qed
qed

lemma sweep_eq:
  "fold (fresh_step today) items (nf, ae, upd) =
     (nf @ map healed (filter (\<lambda>i. \<not> past_due today i) items),
      ae @ map (stamped today) (filter (past_due today) items),
      upd \<or> (\<exists>i\<in>set items. past_due today i \<or> \<not> dict_has i ''category''))"
proof (induction items arbitrary: nf ae upd)
  case Nil
  then show ?case by simp
next
  case (Cons i items)
  show ?case by (cases "past_due today i") (auto simp: fresh_step_eq Cons.IH)
qed

lemma purge_step_eq:
  "purge_step sp today item (fe, upd) =
     (case raises sp item of
        Some e \<Rightarrow> Inl e
      | None \<Rightarrow>
          if kept sp (fst today) item
          then Inr (fe @ [healed item], upd \<or> \<not> dict_has item ''category'')
          else Inr (fe, True))"
proof (cases "map_of item ''expiry_date''")
  case None
  then show ?thesis
    by (simp add: purge_step_def heal_eq dict_item_def map_of_healed_expiry raises_def)
next
  case (Some v)
  show ?thesis
  proof (cases v)
    case (JStr s)
    show ?thesis
    proof (cases "sp s")
      case None
      with Some JStr show ?thesis
        by (simp add: purge_step_def heal_eq dict_item_def map_of_healed_expiry raises_def kept_def)
    next
      case (Some d)
      with \<open>map_of item ''expiry_date'' = Some v\<close> JStr show ?thesis
        by (auto simp: purge_step_def heal_eq dict_item_def map_of_healed_expiry raises_def
            kept_def add_days_def dt_less_def)
    qed
  qed (use Some in \<open>simp_all add: purge_step_def heal_eq dict_item_def map_of_healed_expiry
        raises_def kept_def\<close>)
qed


lemma purge_eq:
  "\<forall>i\<in>set items. raises sp i = None \<Longrightarrow>
   purge sp today items (fe, upd) =
     Inr (fe @ map healed (filter (kept sp (fst today)) items),
          upd \<or> (\<exists>i\<in>set items. \<not> kept sp (fst today) i \<or> \<not> dict_has i ''category''))"
proof (induction items arbitrary: fe upd)
  case Nil
  then show ?case by simp
next
  case (Cons i items)
  then have r: "raises sp i = None" and rest: "\<forall>i\<in>set items. raises sp i = None" by simp_all
  show ?case
    by (cases "kept sp (fst today) i") (auto simp: purge_step_eq r Cons.IH [OF rest])
qed

lemma purge_Inr_no_raise:
  "purge sp today items acc = Inr r \<Longrightarrow> \<forall>i\<in>set items. raises sp i = None"
proof (induction items arbitrary: acc)
  case Nil
  then show ?case by simp
next
  case (Cons i items)
  obtain fe upd where acc: "acc = (fe, upd)" by (cases acc) auto
  from Cons.prems acc have r: "raises sp i = None"
    by (cases "raises sp i") (auto simp: purge_step_eq)
  from Cons.prems acc r obtain acc' where "purge sp today items acc' = Inr r"
    by (auto simp: purge_step_eq split: if_splits)
  from Cons.IH [OF this] r show ?case by simp
qed

lemma purge_same_day:
  "fst t1 = fst t2 \<Longrightarrow> purge sp t1 items acc = purge sp t2 items acc"
proof (induction items arbitrary: acc)
  case Nil
  then show ?case by simp
next
  case (Cons i items)
  obtain fe upd where acc: "acc = (fe, upd)" by (cases acc) auto
  from Cons.prems have "purge_step sp t1 i (fe, upd) = purge_step sp t2 i (fe, upd)"
    by (simp add: purge_step_eq)
  with Cons.IH [OF Cons.prems] acc show ?case by (simp split: sum.splits)
qed

lemma inventory_pass_same_day:
  "today_str c2 = today_str c1 \<Longrightarrow> fst (today_date c2) = fst (today_date c1) \<Longrightarrow>
   inventory_pass sp c2 st = inventory_pass sp c1 st"
  by (simp add: inventory_pass_def purge_same_day [of "today_date c2" "today_date c1"])

lemma inventory_pass_Inr:
  assumes "inventory_pass sp c st = Inr (nf, fe, upd)"
  shows "nf = map healed (filter (\<lambda>i. \<not> past_due (today_str c) i) (load (fresh st)))
       \<and> (\<exists>xs. fe = map healed (filter (kept sp (fst (today_date c))) xs)
               \<and> (\<forall>i\<in>set xs. raises sp i = None))
       \<and> (\<not> upd \<longrightarrow> nf = load (fresh st) \<and> fe = load (expired st))"
proof -
  let ?ae = "load (expired st) @ map (stamped (today_str c)) (filter (past_due (today_str c)) (load (fresh st)))"
  let ?u = "\<exists>i\<in>set (load (fresh st)). past_due (today_str c) i \<or> \<not> dict_has i ''category''"
  from assms have p: "purge sp (today_date c) ?ae ([], ?u) = Inr (fe, upd)"
    and nf: "nf = map healed (filter (\<lambda>i. \<not> past_due (today_str c) i) (load (fresh st)))"
    by (auto simp: inventory_pass_def sweep_eq split: sum.splits)
  note nr = purge_Inr_no_raise [OF p]
  from p purge_eq [OF nr, of "today_date c" "[]" ?u]
  have fe: "fe = map healed (filter (kept sp (fst (today_date c))) ?ae)"
    and upd: "upd = (?u \<or> (\<exists>i\<in>set ?ae. \<not> kept sp (fst (today_date c)) i \<or> \<not> dict_has i ''category''))"
    by simp_all
  have clean: "nf = load (fresh st) \<and> fe = load (expired st)" if "\<not> upd"
  proof -
    from that upd have a: "\<forall>i\<in>set (load (fresh st)). \<not> past_due (today_str c) i \<and> dict_has i ''category''"
      and b: "\<forall>i\<in>set ?ae. kept sp (fst (today_date c)) i \<and> dict_has i ''category''"
      by blast+
    from a have f: "filter (past_due (today_str c)) (load (fresh st)) = []"
      by (simp add: filter_empty_conv)
    from a have "map healed (filter (\<lambda>i. \<not> past_due (today_str c) i) (load (fresh st))) = load (fresh st)"
      by (simp add: healed_id map_idI)
    moreover from b f have "map healed (filter (kept sp (fst (today_date c))) ?ae) = load (expired st)"
      by (simp add: healed_id map_idI)
    ultimately show ?thesis using nf fe by simp
  qed
  from nf fe nr clean show ?thesis by blast
qed

lemma inventory_pass_settled:
  assumes xs: "\<forall>i\<in>set xs. raises sp i = None"
  shows "inventory_pass sp c
           (st\<lparr>fresh := Content (map healed (filter (\<lambda>i. \<not> past_due (today_str c) i) ys)),
               expired := Content (map healed (filter (kept sp (fst (today_date c))) xs))\<rparr>)
         = Inr (map healed (filter (\<lambda>i. \<not> past_due (today_str c) i) ys),
                map healed (filter (kept sp (fst (today_date c))) xs), False)"
proof -
  let ?nf = "map healed (filter (\<lambda>i. \<not> past_due (today_str c) i) ys)"
  let ?fe = "map healed (filter (kept sp (fst (today_date c))) xs)"
  have a: "\<forall>i\<in>set ?nf. \<not> past_due (today_str c) i \<and> dict_has i ''category''"
    by (auto simp: past_due_healed healed_has_category)
  have b: "\<forall>i\<in>set ?fe. kept sp (fst (today_date c)) i \<and> dict_has i ''category'' \<and> raises sp i = None"
    using xs by (auto simp: kept_healed healed_has_category raises_healed)
  from a have f1: "filter (past_due (today_str c)) ?nf = []"
    by (simp only: filter_empty_conv) blast
  from a have f2: "map healed (filter (\<lambda>i. \<not> past_due (today_str c) i) ?nf) = ?nf"
    by (intro trans [OF arg_cong [where f = "map healed"] map_idI]) (auto simp: healed_id)
  from b have f3: "map healed (filter (kept sp (fst (today_date c))) ?fe) = ?fe"
    by (intro trans [OF arg_cong [where f = "map healed"] map_idI]) (auto simp: healed_id)
  have sweep: "fold (fresh_step (today_str c)) ?nf ([], ?fe, False) = (?nf, ?fe, False)"
    using a by (simp only: sweep_eq f1 f2) auto
  from b have nr: "\<forall>i\<in>set ?fe. raises sp i = None" by blast
  have pg: "purge sp (today_date c) ?fe ([], False) = Inr (?fe, False)"
    using b by (simp only: purge_eq [OF nr] f3) auto
  show ?thesis
    by (simp add: inventory_pass_def load_def sweep pg)
qed

text \<open>
  C3. Run \<^verbatim>\<open>get_inventory\<close> at one clock reading and then again, on the storage the
  first run left, at any reading of the same day (same date string, same calendar day):
  the second run has the outcome of the first, be it the output or the exception, it leaves
  the storage as it found it, and its dirty flag is false.
\<close>

theorem get_inventory_idempotent:
  assumes run1: "get_inventory sp c1 u st = (r1, st1)"
    and str: "today_str c2 = today_str c1"
    and day: "fst (today_date c2) = fst (today_date c1)"
  shows "get_inventory sp c2 u st1 = (r1, st1)
       \<and> (\<forall>nf fe upd. inventory_pass sp c2 st1 = Inr (nf, fe, upd) \<longrightarrow> \<not> upd)"
proof (cases "inventory_pass sp c1 st")
  case (Inl e)
  with run1 have "r1 = Inl e" "st1 = st" by (simp_all add: get_inventory_def)
  with Inl inventory_pass_same_day [OF str day, of sp st] show ?thesis
    by (simp add: get_inventory_def)
next
  case (Inr res)
  obtain nf fe upd where res: "res = (nf, fe, upd)" by (cases res) auto
  note ip = Inr [unfolded res]
  note facts = inventory_pass_Inr [OF ip]
  from run1 ip have r1: "r1 = Inr \<lparr>inv_fresh = filter (owned_by u) nf, inv_expired = filter (owned_by u) fe\<rparr>"
    and st1: "st1 = (if upd then st\<lparr>fresh := Content nf, expired := Content fe\<rparr> else st)"
    by (simp_all add: get_inventory_def)
  have ip2: "inventory_pass sp c2 st1 = Inr (nf, fe, False)"
  proof (cases upd)
    case False
    with st1 ip inventory_pass_same_day [OF str day, of sp st] show ?thesis by simp
  next
    case True
    from facts obtain xs where fe: "fe = map healed (filter (kept sp (fst (today_date c1))) xs)"
      and xs: "\<forall>i\<in>set xs. raises sp i = None"
      and nf: "nf = map healed (filter (\<lambda>i. \<not> past_due (today_str c1) i) (load (fresh st)))"
      by blast
    from inventory_pass_settled [OF xs, where c = c1 and st = st and ys = "load (fresh st)"] nf fe True st1
    have "inventory_pass sp c1 st1 = Inr (nf, fe, False)" by simp
    with inventory_pass_same_day [OF str day, of sp st1] show ?thesis by simp
  qed
  from ip2 r1 show ?thesis by (simp add: get_inventory_def)
qed

text \<open>The sweep and purge scenarios in one run: the item dated yesterday is archived, the
  item that expired forty days ago is purged, and both documents are saved.\<close>

lemma get_inventory_sweep:
  "get_inventory strptime_ymd clock_nov4 ''UserA'' st_sweep =
     (Inr \<lparr>inv_fresh = [item_a], inv_expired = [stamped ''2026-11-04'' item_yesterday]\<rparr>,
      st_sweep\<lparr>fresh := Content [item_a], expired := Content [stamped ''2026-11-04'' item_yesterday]\<rparr>)"
proof -
  have s1: "strptime_ymd ''2026-09-25'' = Some 739884"
    by (simp add: strptime_ymd_def is_digit_def digit_val_def month_token_def day_token_def
        days_in_month_def to_ordinal_def days_before_year_def days_before_month_def is_leap_def
        upt_rec)
  have s2: "strptime_ymd ''2026-11-03'' = Some 739923"
    by (simp add: strptime_ymd_def is_digit_def digit_val_def month_token_def day_token_def
        days_in_month_def to_ordinal_def days_before_year_def days_before_month_def is_leap_def
        upt_rec)
  have pd: "past_due ''2026-11-04'' item_yesterday" "\<not> past_due ''2026-11-04'' item_a"
    by (simp_all add: past_due_def dict_get_def item_yesterday_def item_a_def)
  have ha: "healed item_a = item_a"
    by (simp add: healed_def heal_def dict_has_def item_a_def)
  have sw: "fold (fresh_step ''2026-11-04'') [item_yesterday, item_a] ([], [item_ancient], False)
      = ([item_a], [item_ancient, stamped ''2026-11-04'' item_yesterday], True)"
    by (simp only: sweep_eq) (simp add: pd ha)
  have m1: "map_of item_ancient ''expiry_date'' = Some (JStr ''2026-09-25'')"
    by (simp add: item_ancient_def)
  have m2: "map_of (stamped ''2026-11-04'' item_yesterday) ''expiry_date'' = Some (JStr ''2026-11-03'')"
    by (simp add: stamped_def healed_def heal_def dict_has_def map_of_dict_set item_yesterday_def)
  have r: "raises strptime_ymd item_ancient = None"
    "raises strptime_ymd (stamped ''2026-11-04'' item_yesterday) = None"
    by (simp_all add: raises_def m1 m2 s1 s2 max_ordinal_def)
  have k: "\<not> kept strptime_ymd 739924 item_ancient"
    "kept strptime_ymd 739924 (stamped ''2026-11-04'' item_yesterday)"
    by (simp_all add: kept_def m1 m2 s1 s2 max_ordinal_def)
  have hs: "healed (stamped ''2026-11-04'' item_yesterday) = stamped ''2026-11-04'' item_yesterday"
    by (rule healed_id) (simp add: stamped_def dict_has_dict_set healed_has_category)
  have pg: "purge strptime_ymd (739924, 36000000000)
      [item_ancient, stamped ''2026-11-04'' item_yesterday] ([], True)
      = Inr ([stamped ''2026-11-04'' item_yesterday], True)"
    using r k hs by (subst purge_eq) simp_all
  have o: "owned_by ''UserA'' item_a" "owned_by ''UserA'' (stamped ''2026-11-04'' item_yesterday)"
    by (simp_all add: owned_by_def stamped_def dict_get_dict_set healed_def heal_def dict_has_def
        dict_get_def item_a_def item_yesterday_def map_of_dict_set)
  have ld: "load (fresh st_sweep) = [item_yesterday, item_a]" "load (expired st_sweep) = [item_ancient]"
    "today_str clock_nov4 = ''2026-11-04''" "today_date clock_nov4 = (739924, 36000000000)"
    by (simp_all add: st_sweep_def load_def clock_nov4_def)
  have ip: "inventory_pass strptime_ymd clock_nov4 st_sweep
      = Inr ([item_a], [stamped ''2026-11-04'' item_yesterday], True)"
    unfolding inventory_pass_def by (simp only: ld sw pg prod.case sum.case)
  show ?thesis
    by (simp add: get_inventory_def ip o)
qed

theorem get_inventory_idempotent_witness:
  "today_str clock_nov4_late = today_str clock_nov4
   \<and> fst (today_date clock_nov4_late) = fst (today_date clock_nov4)
   \<and> today_date clock_nov4_late \<noteq> today_date clock_nov4
   \<and> fst (get_inventory strptime_ymd clock_nov4 ''UserA'' st_sweep)
       = Inr \<lparr>inv_fresh = [item_a], inv_expired = [stamped ''2026-11-04'' item_yesterday]\<rparr>
   \<and> snd (get_inventory strptime_ymd clock_nov4 ''UserA'' st_sweep) \<noteq> st_sweep
   \<and> get_inventory strptime_ymd clock_nov4_late ''UserA''
         (snd (get_inventory strptime_ymd clock_nov4 ''UserA'' st_sweep))
       = get_inventory strptime_ymd clock_nov4 ''UserA'' st_sweep"
proof -
  have str: "today_str clock_nov4_late = today_str clock_nov4"
    and day: "fst (today_date clock_nov4_late) = fst (today_date clock_nov4)"
    and tod: "today_date clock_nov4_late \<noteq> today_date clock_nov4"
    by (simp_all add: clock_nov4_def clock_nov4_late_def)
  note w = get_inventory_idempotent [OF get_inventory_sweep str day]
  have ne: "st_sweep\<lparr>fresh := Content [item_a], expired := Content [stamped ''2026-11-04'' item_yesterday]\<rparr> \<noteq> st_sweep"
    by (simp add: st_sweep_def)
  from w str day tod ne show ?thesis by (simp add: get_inventory_sweep)
qed

section \<open>Properties of the category registry\<close>






section \<open>What get_inventory does with the fresh items\<close>

lemma map_of_stamped_expiry:
  "map_of (stamped t item) ''expiry_date'' = map_of item ''expiry_date''"
  by (simp add: stamped_def map_of_dict_set map_of_healed_expiry)

lemma kept_stamped: "kept sp day (stamped t item) = kept sp day item"
  by (simp add: kept_def map_of_stamped_expiry)

lemma healed_stamped: "healed (stamped t item) = stamped t item"
  by (rule healed_id) (simp add: stamped_def dict_has_dict_set healed_has_category)

lemma stamped_archived_at: "dict_get (stamped t item) ''archived_at'' = JStr t"
  by (simp add: stamped_def dict_get_dict_set)

lemma purged_split:
  "map healed (filter (kept sp day) (xs @ map (stamped t) ys)) =
     map healed (filter (kept sp day) xs) @ map (stamped t) (filter (kept sp day) ys)"
  by (simp add: filter_map comp_def kept_stamped healed_stamped)

lemma inventory_pass_result:
  assumes "inventory_pass sp c st = Inr (nf, fe, upd)"
  shows "nf = map healed (filter (\<lambda>i. \<not> past_due (today_str c) i) (load (fresh st)))"
    and "fe = map healed (filter (kept sp (fst (today_date c))) (load (expired st)))
            @ map (stamped (today_str c))
                (filter (kept sp (fst (today_date c))) (filter (past_due (today_str c)) (load (fresh st))))"
    and "(\<exists>i\<in>set (load (fresh st)). past_due (today_str c) i) \<longrightarrow> upd"
proof -
  let ?ae = "load (expired st) @ map (stamped (today_str c)) (filter (past_due (today_str c)) (load (fresh st)))"
  let ?u = "\<exists>i\<in>set (load (fresh st)). past_due (today_str c) i \<or> \<not> dict_has i ''category''"
  from assms have p: "purge sp (today_date c) ?ae ([], ?u) = Inr (fe, upd)"
    and nf: "nf = map healed (filter (\<lambda>i. \<not> past_due (today_str c) i) (load (fresh st)))"
    by (auto simp: inventory_pass_def sweep_eq split: sum.splits)
  note nr = purge_Inr_no_raise [OF p]
  from p purge_eq [OF nr, of "today_date c" "[]" ?u]
  have fe: "fe = map healed (filter (kept sp (fst (today_date c))) ?ae)"
    and upd: "upd = (?u \<or> (\<exists>i\<in>set ?ae. \<not> kept sp (fst (today_date c)) i \<or> \<not> dict_has i ''category''))"
    by simp_all
  show "nf = map healed (filter (\<lambda>i. \<not> past_due (today_str c) i) (load (fresh st)))" by (rule nf)
  show "fe = map healed (filter (kept sp (fst (today_date c))) (load (expired st)))
            @ map (stamped (today_str c))
                (filter (kept sp (fst (today_date c))) (filter (past_due (today_str c)) (load (fresh st))))"
    unfolding fe by (rule purged_split)
  show "(\<exists>i\<in>set (load (fresh st)). past_due (today_str c) i) \<longrightarrow> upd"
    using upd by blast
qed

text \<open>
  C2, as amended. Whenever \<^verbatim>\<open>get_inventory\<close> returns, a fresh item is taken out of the fresh
  set, stamped with \<^verbatim>\<open>archived_at\<close> = today's date string and handed to the purge pass of the
  same call, and the dirty flag is set and both collections saved, exactly when the item is
  past due: its \<^verbatim>\<open>expiry_date\<close> is a non-empty str lexicographically below today's date
  string. Such an item is in the expired set after the call exactly when the purge pass
  keeps it (its date parses and today is before the parsed date plus 30 days); otherwise it
  is purged at once. Every other fresh item stays in the fresh set, with its category
  healed, in particular every item on which the comparison raises.
\<close>

theorem get_inventory_classification:
  assumes "get_inventory sp c u st = (Inr out, st')"
  shows "load (fresh st') = map healed (filter (\<lambda>i. \<not> past_due (today_str c) i) (load (fresh st)))
       \<and> load (expired st') =
           map healed (filter (kept sp (fst (today_date c))) (load (expired st)))
           @ map (stamped (today_str c))
               (filter (kept sp (fst (today_date c))) (filter (past_due (today_str c)) (load (fresh st))))
       \<and> inv_fresh out = filter (owned_by u) (load (fresh st'))
       \<and> inv_expired out = filter (owned_by u) (load (expired st'))
       \<and> ((\<exists>i\<in>set (load (fresh st)). past_due (today_str c) i) \<longrightarrow>
            (\<exists>nf fe. inventory_pass sp c st = Inr (nf, fe, True))
            \<and> fresh st' = Content (load (fresh st')) \<and> expired st' = Content (load (expired st')))
       \<and> (\<forall>i\<in>set (load (fresh st)). \<forall>e.
            check_expiry (today_str c) (healed i) = Inl e \<longrightarrow> healed i \<in> set (load (fresh st')))
       \<and> (\<forall>i. dict_get (stamped (today_str c) i) ''archived_at'' = JStr (today_str c)
              \<and> dict_get (stamped (today_str c) i) ''expiry_date'' = dict_get i ''expiry_date''
              \<and> dict_get (stamped (today_str c) i) ''owner'' = dict_get i ''owner'')"
proof -
  from assms obtain nf fe upd where ip: "inventory_pass sp c st = Inr (nf, fe, upd)"
    and out: "out = \<lparr>inv_fresh = filter (owned_by u) nf, inv_expired = filter (owned_by u) fe\<rparr>"
    and st': "st' = (if upd then st\<lparr>fresh := Content nf, expired := Content fe\<rparr> else st)"
    by (auto simp: get_inventory_def split: sum.splits prod.splits)
  note r = inventory_pass_result [OF ip]
  from inventory_pass_Inr [OF ip] have clean: "\<not> upd \<Longrightarrow> nf = load (fresh st) \<and> fe = load (expired st)"
    by blast
  have lf: "load (fresh st') = nf" and le: "load (expired st') = fe"
    using st' clean by (cases upd; simp add: load_def)+
  have dirty: "(\<exists>nf fe. inventory_pass sp c st = Inr (nf, fe, True))
      \<and> fresh st' = Content (load (fresh st')) \<and> expired st' = Content (load (expired st'))"
    if "\<exists>i\<in>set (load (fresh st)). past_due (today_str c) i"
  proof -
    from that r(3) have upd by blast
    with ip st' show ?thesis by (auto simp: load_def)
  qed
  have keep: "healed i \<in> set (load (fresh st'))"
    if "i \<in> set (load (fresh st))" and "check_expiry (today_str c) (healed i) = Inl e" for i e
  proof -
    from that(2) check_expiry_past_due [of "today_str c" "healed i"]
    have "\<not> past_due (today_str c) i" by (simp add: past_due_healed)
    with that(1) show ?thesis unfolding lf r(1) by auto
  qed
  have st: "dict_get (stamped (today_str c) i) ''archived_at'' = JStr (today_str c)
      \<and> dict_get (stamped (today_str c) i) ''expiry_date'' = dict_get i ''expiry_date''
      \<and> dict_get (stamped (today_str c) i) ''owner'' = dict_get i ''owner''" for i
    by (simp add: stamped_def dict_get_dict_set healed_def heal_def)
  from lf r(1) have c1: "load (fresh st') =
      map healed (filter (\<lambda>i. \<not> past_due (today_str c) i) (load (fresh st)))"
    by (rule trans)
  from le r(2) have c2: "load (expired st') =
      map healed (filter (kept sp (fst (today_date c))) (load (expired st)))
      @ map (stamped (today_str c))
          (filter (kept sp (fst (today_date c))) (filter (past_due (today_str c)) (load (fresh st))))"
    by (rule trans)
  have c3: "inv_fresh out = filter (owned_by u) (load (fresh st'))"
    and c4: "inv_expired out = filter (owned_by u) (load (expired st'))"
    using out lf le by simp_all
  from dirty have c5: "(\<exists>i\<in>set (load (fresh st)). past_due (today_str c) i) \<longrightarrow>
      (\<exists>nf fe. inventory_pass sp c st = Inr (nf, fe, True))
      \<and> fresh st' = Content (load (fresh st')) \<and> expired st' = Content (load (expired st'))"
    by blast
  from keep have c6: "\<forall>i\<in>set (load (fresh st)). \<forall>e.
      check_expiry (today_str c) (healed i) = Inl e \<longrightarrow> healed i \<in> set (load (fresh st'))"
    by blast
  from st have c7: "\<forall>i. dict_get (stamped (today_str c) i) ''archived_at'' = JStr (today_str c)
      \<and> dict_get (stamped (today_str c) i) ''expiry_date'' = dict_get i ''expiry_date''
      \<and> dict_get (stamped (today_str c) i) ''owner'' = dict_get i ''owner''"
    by blast
  from c1 c2 c3 c4 c5 c6 c7 show ?thesis by (intro conjI)
qed

theorem get_inventory_classification_witness:
  "past_due ''2026-11-04'' item_yesterday
   \<and> \<not> past_due ''2026-11-04'' item_a
   \<and> fst (get_inventory strptime_ymd clock_nov4 ''UserA'' st_sweep)
       = Inr \<lparr>inv_fresh = [item_a], inv_expired = [stamped ''2026-11-04'' item_yesterday]\<rparr>
   \<and> load (fresh (snd (get_inventory strptime_ymd clock_nov4 ''UserA'' st_sweep))) = [item_a]
   \<and> load (expired (snd (get_inventory strptime_ymd clock_nov4 ''UserA'' st_sweep)))
       = [stamped ''2026-11-04'' item_yesterday]
   \<and> (\<exists>nf fe. inventory_pass strptime_ymd clock_nov4 st_sweep = Inr (nf, fe, True))"
proof -
  note w = get_inventory_classification [OF get_inventory_sweep]
  have pd: "past_due ''2026-11-04'' item_yesterday" "\<not> past_due ''2026-11-04'' item_a"
    by (simp_all add: past_due_def dict_get_def item_yesterday_def item_a_def)
  have ts: "today_str clock_nov4 = ''2026-11-04''" by (simp add: clock_nov4_def)
  have m: "item_yesterday \<in> set (load (fresh st_sweep))" by (simp add: st_sweep_def load_def)
  from w pd(1) ts m have d: "\<exists>nf fe. inventory_pass strptime_ymd clock_nov4 st_sweep = Inr (nf, fe, True)"
    by auto
  have l: "load (fresh (snd (get_inventory strptime_ymd clock_nov4 ''UserA'' st_sweep))) = [item_a]"
    "load (expired (snd (get_inventory strptime_ymd clock_nov4 ''UserA'' st_sweep)))
       = [stamped ''2026-11-04'' item_yesterday]"
    by (simp_all add: get_inventory_sweep load_def)
  from pd d l show ?thesis by (simp add: get_inventory_sweep)
qed

text \<open>
  C2 as it is stated fails for an \<^verbatim>\<open>expiry_date\<close> that is present and is the empty str: it
  is lexicographically below today's date string, yet \<^verbatim>\<open>get_inventory\<close> leaves the item in
  the fresh set, moves and stamps nothing, and saves nothing.
\<close>

theorem get_inventory_empty_date_counterexample:
  "dict_has item_empty_date ''expiry_date''
   \<and> dict_get item_empty_date ''expiry_date'' = JStr []
   \<and> [] < today_str clock_nov4
   \<and> get_inventory strptime_ymd clock_nov4 ''UserA'' st_empty_date
       = (Inr \<lparr>inv_fresh = [item_empty_date], inv_expired = []\<rparr>, st_empty_date)"
proof -
  have a: "dict_has item_empty_date ''expiry_date''" "dict_get item_empty_date ''expiry_date'' = JStr []"
    "dict_has item_empty_date ''category''" "owned_by ''UserA'' item_empty_date"
    by (simp_all add: dict_has_def dict_get_def owned_by_def item_empty_date_def)
  have b: "[] < today_str clock_nov4" by (simp add: clock_nov4_def)
  have pd: "\<not> past_due (today_str clock_nov4) item_empty_date"
    by (simp add: past_due_def a)
  have ld: "load (fresh st_empty_date) = [item_empty_date]" "load (expired st_empty_date) = []"
    by (simp_all add: st_empty_date_def load_def)
  have sw: "fold (fresh_step (today_str clock_nov4)) [item_empty_date] ([], [], False)
      = ([item_empty_date], [], False)"
    by (simp only: sweep_eq) (simp add: pd a healed_id)
  have ip: "inventory_pass strptime_ymd clock_nov4 st_empty_date = Inr ([item_empty_date], [], False)"
    unfolding inventory_pass_def by (simp only: ld sw prod.case purge.simps sum.case)
  from a b show ?thesis by (simp add: get_inventory_def ip)
qed

section \<open>Properties of get_categories\<close>


lemma py_eq_JStr_left: "py_eq (JStr s) k = (k = JStr s)"
  by (cases k) auto







lemma seed_map_facts:
  "distinct (map fst seed_map)" "\<forall>k\<in>fst ` set seed_map. hashable k"
  "\<forall>(k, c)\<in>set seed_map. dict_get c ''name'' = k \<and> is_str k \<and> c \<in> set DEFAULT_CATEGORIES"
  "snd ` set seed_map = set DEFAULT_CATEGORIES"
  "fst ` set seed_map = set system_names"
  by (simp_all add: seed_map_def system_names_def DEFAULT_CATEGORIES_def dict_get_def)


lemma keyed_entries:
  assumes "m' = seed_map @ extra"
    and "\<forall>(k, c)\<in>set extra. c \<in> set cs \<and> dict_get c ''owner'' = JStr u
           \<and> map_of c ''name'' = Some k \<and> hashable k \<and> \<not> in_cat_map k seed_map"
  shows "\<forall>e\<in>set m'. dict_get (snd e) ''name'' = fst e"
  using assms seed_map_facts(3) by (auto simp: dict_get_def)





text \<open>
  C5. A persisted custom category of the user named \<^verbatim>\<open>food\<close> collides with the system name
  \<^verbatim>\<open>Food\<close> when letter case is ignored, as \<^verbatim>\<open>add_category\<close> compares names; the test
  \<^verbatim>\<open>c['name'] not in cat_map\<close> compares them exactly, so \<^verbatim>\<open>get_categories\<close> returns the
  custom record beside the system one.
\<close>

theorem get_categories_returns_case_variant:
  "cat_food_lower \<in> set (load (categories st_food))
   \<and> dict_get cat_food_lower ''owner'' = JStr ''UserA''
   \<and> dict_get cat_food_lower ''type'' = JStr ''custom''
   \<and> dict_get cat_food_lower ''name'' = JStr ''food''
   \<and> lower ''food'' = lower ''Food''
   \<and> get_categories ''UserA'' st_food =
       Inr [[(''name'', JStr ''Documents''), (''type'', JStr ''system'')],
            [(''name'', JStr ''Food''), (''type'', JStr ''system'')],
            [(''name'', JStr ''General''), (''type'', JStr ''system'')],
            [(''name'', JStr ''Medicine''), (''type'', JStr ''system'')],
            [(''name'', JStr ''Personal Care''), (''type'', JStr ''system'')],
            cat_food_lower]"
proof -
  have a: "cat_food_lower \<in> set (load (categories st_food))"
    by (simp add: st_food_def load_def)
  have b: "dict_get cat_food_lower ''owner'' = JStr ''UserA''"
    "dict_get cat_food_lower ''type'' = JStr ''custom''"
    "dict_get cat_food_lower ''name'' = JStr ''food''"
    by (simp_all add: dict_get_def cat_food_lower_def)
  have c: "lower ''food'' = lower ''Food''"
    by (simp add: lower_def lower_char_def)
  have g: "get_categories ''UserA'' st_food =
       Inr [[(''name'', JStr ''Documents''), (''type'', JStr ''system'')],
            [(''name'', JStr ''Food''), (''type'', JStr ''system'')],
            [(''name'', JStr ''General''), (''type'', JStr ''system'')],
            [(''name'', JStr ''Medicine''), (''type'', JStr ''system'')],
            [(''name'', JStr ''Personal Care''), (''type'', JStr ''system'')],
            cat_food_lower]"
    by (simp add: get_categories_def Let_def sorted_values_def DEFAULT_CATEGORIES_def dict_get_def
        dict_item_def in_cat_map_def st_food_def load_def cat_food_lower_def)
  from a b c g show ?thesis by (intro conjI)
qed

end
